theory Spec2Isabelle
  imports Main "HOL-Library.Word" "HOL-Library.AList"
begin

section \<open>JavaScript strings and character classes\<close>

text \<open>
  A JavaScript string is a sequence of UTF-16 code units and \<open>length\<close> counts code
  units. String literals of the source are written through \<open>str\<close>. The messages and
  the property names of the error object are constants of the source and are kept as
  HOL strings.
\<close>

type_synonym code_unit = "16 word"
type_synonym jsstring = "code_unit list"

definition str :: "string \<Rightarrow> jsstring" where
  "str s = map of_char s"

text \<open>The classes used by the regular expressions of the forms (no \<open>i\<close>, \<open>u\<close> or \<open>s\<close> flag).\<close>

definition lowercase :: "code_unit \<Rightarrow> bool" where
  \<comment> \<open>\<open>[a-z]\<close>\<close>
  "lowercase c = (0x61 \<le> c \<and> c \<le> 0x7A)"

definition uppercase :: "code_unit \<Rightarrow> bool" where
  \<comment> \<open>\<open>[A-Z]\<close>\<close>
  "uppercase c = (0x41 \<le> c \<and> c \<le> 0x5A)"

definition digit :: "code_unit \<Rightarrow> bool" where
  \<comment> \<open>\<open>\d\<close>\<close>
  "digit c = (0x30 \<le> c \<and> c \<le> 0x39)"

definition line_terminator :: "code_unit \<Rightarrow> bool" where
  \<comment> \<open>LF, CR, LINE SEPARATOR, PARAGRAPH SEPARATOR\<close>
  "line_terminator c = (c = 0x0A \<or> c = 0x0D \<or> c = 0x2028 \<or> c = 0x2029)"

definition whitespace :: "code_unit \<Rightarrow> bool" where
  \<comment> \<open>\<open>\s\<close>, also what \<open>trim\<close> strips: WhiteSpace and LineTerminator\<close>
  "whitespace c =
     (c = 0x09 \<or> c = 0x0B \<or> c = 0x0C \<or> c = 0x20 \<or> c = 0xA0 \<or> c = 0x1680
      \<or> (0x2000 \<le> c \<and> c \<le> 0x200A) \<or> c = 0x202F \<or> c = 0x205F \<or> c = 0x3000
      \<or> c = 0xFEFF \<or> line_terminator c)"

definition any_char :: "code_unit \<Rightarrow> bool" where
  \<comment> \<open>\<open>.\<close> without the \<open>s\<close> flag: anything but a line terminator\<close>
  "any_char c = (\<not> line_terminator c)"

definition symbol :: "code_unit \<Rightarrow> bool" where
  \<comment> \<open>\<open>[^a-zA-Z\d]\<close>\<close>
  "symbol c = (\<not> (lowercase c \<or> uppercase c \<or> digit c))"

definition not_space_at :: "code_unit \<Rightarrow> bool" where
  \<comment> \<open>\<open>[^\s@]\<close>\<close>
  "not_space_at c = (\<not> (whitespace c \<or> c = 0x40))"

definition at_sign :: "code_unit \<Rightarrow> bool" where
  "at_sign c = (c = 0x40)"

definition full_stop :: "code_unit \<Rightarrow> bool" where
  \<comment> \<open>\<open>\.\<close>\<close>
  "full_stop c = (c = 0x2E)"

definition trim :: "jsstring \<Rightarrow> jsstring" where
  \<comment> \<open>\<open>String.prototype.trim\<close>\<close>
  "trim s = rev (dropWhile whitespace (rev (dropWhile whitespace s)))"

section \<open>Regular expressions\<close>

text \<open>
  The fragment of regular expressions that the forms use: a pattern is a sequence of
  items, an item is one character of a class, a class repeated (\<open>*\<close>, \<open>+\<close>), an
  anchor (\<open>^\<close>, \<open>$\<close>) or a lookahead \<open>(?=...)\<close>. \<open>accepts rs b s\<close> says that the
  sequence \<open>rs\<close> matches some prefix of \<open>s\<close> by backtracking; \<open>b\<close> tells whether \<open>s\<close>
  starts at the beginning of the input. \<open>test\<close> is \<open>RegExp.prototype.test\<close> for a
  pattern without flags: a match may start at any position.
\<close>

datatype re =
    Cls "code_unit \<Rightarrow> bool"
  | Star "code_unit \<Rightarrow> bool"
  | Plus "code_unit \<Rightarrow> bool"
  | Bol
  | Eol
  | Look "re list"

fun accepts :: "re list \<Rightarrow> bool \<Rightarrow> jsstring \<Rightarrow> bool" where
  "accepts [] b s = True"
| "accepts (Cls p # rs) b s =
     (case s of [] \<Rightarrow> False | c # cs \<Rightarrow> p c \<and> accepts rs False cs)"
| "accepts (Star p # rs) b s =
     (accepts rs b s \<or>
      (case s of [] \<Rightarrow> False | c # cs \<Rightarrow> p c \<and> accepts (Star p # rs) False cs))"
| "accepts (Plus p # rs) b s =
     (case s of [] \<Rightarrow> False | c # cs \<Rightarrow> p c \<and> accepts (Star p # rs) False cs)"
| "accepts (Bol # rs) b s = (b \<and> accepts rs b s)"
| "accepts (Eol # rs) b s = (s = [] \<and> accepts rs b s)"
| "accepts (Look ls # rs) b s = (accepts ls b s \<and> accepts rs b s)"

fun test_from :: "re list \<Rightarrow> bool \<Rightarrow> jsstring \<Rightarrow> bool" where
  "test_from rs b [] = accepts rs b []"
| "test_from rs b (c # cs) = (accepts rs b (c # cs) \<or> test_from rs False cs)"

definition test :: "re list \<Rightarrow> jsstring \<Rightarrow> bool" where
  "test rs s = test_from rs True s"

definition emailRegex :: "re list" where
  \<comment> \<open>\<open>/^[^\s@]+@[^\s@]+\.[^\s@]+$/\<close>\<close>
  "emailRegex =
     [Bol, Plus not_space_at, Cls at_sign, Plus not_space_at, Cls full_stop,
      Plus not_space_at, Eol]"

definition passwordRegex :: "re list" where
  \<comment> \<open>\<open>/(?=.*[a-z])(?=.*[A-Z])(?=.*\d)/\<close>\<close>
  "passwordRegex =
     [Look [Star any_char, Cls lowercase], Look [Star any_char, Cls uppercase],
      Look [Star any_char, Cls digit]]"

section \<open>The sign-up form\<close>

record FormData =
  username :: jsstring
  email :: jsstring
  password :: jsstring
  confirmPassword :: jsstring

text \<open>
  The error object: its keys in insertion order, each with its message. An assignment
  to a property is \<open>AList.update\<close> (an existing key keeps its place, a new one goes to
  the end), \<open>delete\<close> is \<open>AList.delete\<close>, a property read is \<open>map_of\<close>.
\<close>

type_synonym FormErrors = "(string \<times> string) list"

record state =
  formData :: FormData
  errors :: FormErrors
  showPassword :: bool
  showConfirmPassword :: bool
  isLoading :: bool

definition initial_FormData :: FormData where
  "initial_FormData = \<lparr>username = [], email = [], password = [], confirmPassword = []\<rparr>"

definition initial_state :: state where
  "initial_state =
     \<lparr>formData = initial_FormData, errors = [], showPassword = False,
      showConfirmPassword = False, isLoading = False\<rparr>"

text \<open>
  \<open>validateField\<close> is a closure of one render: \<open>errors\<close> and \<open>formData\<close> are the values
  that render saw. Its result is the object it passes to \<open>setErrors\<close>. The switch has no
  default: any other name leaves the copy as it is.
\<close>

definition validateField :: "FormErrors \<Rightarrow> FormData \<Rightarrow> string \<Rightarrow> jsstring \<Rightarrow> FormErrors" where
  "validateField errors_now formData_now name val =
     (let newErrors = errors_now in
      if name = ''username'' then
        (if val = [] \<or> length val < 4
         then AList.update ''username'' ''Username must be at least 4 characters'' newErrors
         else AList.delete ''username'' newErrors)
      else if name = ''email'' then
        (if val = [] \<or> \<not> test emailRegex val
         then AList.update ''email'' ''Please enter a valid email address'' newErrors
         else AList.delete ''email'' newErrors)
      else if name = ''password'' then
        (if val = [] \<or> length val < 8
         then AList.update ''password'' ''Password must be at least 8 characters'' newErrors
         else if \<not> test passwordRegex val
         then AList.update ''password''
                ''Password must contain uppercase, lowercase, and number'' newErrors
         else AList.delete ''password'' newErrors)
      else if name = ''confirmPassword'' then
        (if val \<noteq> password formData_now
         then AList.update ''confirmPassword'' ''Passwords do not match'' newErrors
         else AList.delete ''confirmPassword'' newErrors)
      else newErrors)"

definition getPasswordStrength :: "jsstring \<Rightarrow> nat" where
  "getPasswordStrength pw =
     (let strength = 0;
          strength = (if length pw \<ge> 8 then strength + 1 else strength);
          strength = (if test [Cls lowercase] pw then strength + 1 else strength);
          strength = (if test [Cls uppercase] pw then strength + 1 else strength);
          strength = (if test [Cls digit] pw then strength + 1 else strength);
          strength = (if test [Cls symbol] pw then strength + 1 else strength)
      in strength)"

definition getPasswordStrengthText :: "nat \<Rightarrow> string" where
  "getPasswordStrengthText strength =
     (if strength = 0 \<or> strength = 1 then ''Weak''
      else if strength = 2 \<or> strength = 3 then ''Medium''
      else if strength = 4 \<or> strength = 5 then ''Strong''
      else ''Weak'')"

subsection \<open>Handlers as traces of effects\<close>

text \<open>
  The form renders four inputs, named after the four fields and none of them a
  checkbox, so a change event carries one of these names and a string. A handler is
  modelled by the sequence of effects it performs, computed from the state of the
  render whose closure it is; the state setters take effect, in order, at the next
  render.
\<close>

datatype field = Username | Email | Password | ConfirmPassword

fun field_name :: "field \<Rightarrow> string" where
  "field_name Username = ''username''"
| "field_name Email = ''email''"
| "field_name Password = ''password''"
| "field_name ConfirmPassword = ''confirmPassword''"

fun get_field :: "FormData \<Rightarrow> field \<Rightarrow> jsstring" where
  "get_field d Username = username d"
| "get_field d Email = email d"
| "get_field d Password = password d"
| "get_field d ConfirmPassword = confirmPassword d"

fun set_field :: "field \<Rightarrow> jsstring \<Rightarrow> FormData \<Rightarrow> FormData" where
  "set_field Username v d = d\<lparr>username := v\<rparr>"
| "set_field Email v d = d\<lparr>email := v\<rparr>"
| "set_field Password v d = d\<lparr>password := v\<rparr>"
| "set_field ConfirmPassword v d = d\<lparr>confirmPassword := v\<rparr>"

definition Object_keys_FormData :: "field list" where
  \<comment> \<open>\<open>Object.keys(formData)\<close>: the keys in the order of the initial object\<close>
  "Object_keys_FormData = [Username, Email, Password, ConfirmPassword]"

datatype http_result = Resolved jsstring | Rejected jsstring

datatype effect =
    PreventDefault
  | SetFormData field jsstring
  | SetErrors FormErrors
  | SetIsLoading bool
  | AwaitTimeout nat
  | ConsoleLogFormData FormData
  | AxiosPost string jsstring jsstring
  | ConsoleLogResponse jsstring
  | ConsoleErrorEvent

fun is_network_call :: "effect \<Rightarrow> bool" where
  "is_network_call (AxiosPost url e p) = True"
| "is_network_call _ = False"

fun is_await :: "effect \<Rightarrow> bool" where
  "is_await (AwaitTimeout ms) = True"
| "is_await _ = False"

definition handleInputChange :: "state \<Rightarrow> field \<Rightarrow> jsstring \<Rightarrow> effect list" where
  "handleInputChange st name fieldValue =
     [SetFormData name fieldValue,
      SetErrors (validateField (errors st) (formData st) (field_name name) fieldValue)]"

definition handleSubmit :: "state \<Rightarrow> effect list" where
  "handleSubmit st =
     PreventDefault #
     map (\<lambda>key. SetErrors (validateField (errors st) (formData st) (field_name key)
                             (get_field (formData st) key)))
         Object_keys_FormData @
     (if length (map fst (errors st)) = 0
      then [SetIsLoading True, AwaitTimeout 2000, SetIsLoading False,
            ConsoleLogFormData (formData st)]
      else [])"

fun apply_effect :: "state \<Rightarrow> effect \<Rightarrow> state" where
  "apply_effect st (SetFormData name v) = st\<lparr>formData := set_field name v (formData st)\<rparr>"
| "apply_effect st (SetErrors e) = st\<lparr>errors := e\<rparr>"
| "apply_effect st (SetIsLoading b) = st\<lparr>isLoading := b\<rparr>"
| "apply_effect st _ = st"

definition run :: "state \<Rightarrow> effect list \<Rightarrow> state" where
  "run st effs = foldl apply_effect st effs"

definition before_await :: "effect list \<Rightarrow> effect list" where
  "before_await effs = takeWhile (\<lambda>e. \<not> is_await e) effs"

definition after_await :: "effect list \<Rightarrow> effect list" where
  "after_await effs = dropWhile (\<lambda>e. \<not> is_await e) effs"

text \<open>
  The page as an event loop: a change or a submit runs the handler of the current
  render up to its first \<open>await\<close>; the rest of a suspended submit waits in \<open>pending\<close>
  and runs when its timer fires. All timers have the same delay, so they fire in the
  order in which they were set. A submit is taken in any state: the model does not
  rely on the submit button being disabled while errors are shown or a submit is
  suspended.
\<close>

datatype event = Change field jsstring | Submit | TimerFired

record page =
  ui :: state
  pending :: "effect list list"

definition initial_page :: page where
  "initial_page = \<lparr>ui = initial_state, pending = []\<rparr>"

fun step :: "page \<Rightarrow> event \<Rightarrow> page" where
  "step pg (Change name v) = pg\<lparr>ui := run (ui pg) (handleInputChange (ui pg) name v)\<rparr>"
| "step pg Submit =
     (let effs = handleSubmit (ui pg) in
      pg\<lparr>ui := run (ui pg) (before_await effs),
         pending := (if after_await effs = [] then pending pg
                     else pending pg @ [after_await effs])\<rparr>)"
| "step pg TimerFired =
     (case pending pg of
        [] \<Rightarrow> pg
      | k # ks \<Rightarrow> pg\<lparr>ui := run (ui pg) k, pending := ks\<rparr>)"

definition steps :: "page \<Rightarrow> event list \<Rightarrow> page" where
  "steps pg evs = foldl step pg evs"

section \<open>The sign-in form\<close>

record SignInFormData =
  signin_email :: jsstring
  signin_password :: jsstring

record signin_state =
  signin_formData :: SignInFormData
  signin_showPassword :: bool
  signin_isLoading :: bool

text \<open>
  The sign-in submit handler; \<open>res\<close> is what the awaited request turns out to be.
  The \<open>finally\<close> block runs on both paths.
\<close>

definition signin_handleSubmit :: "signin_state \<Rightarrow> http_result \<Rightarrow> effect list" where
  "signin_handleSubmit st res =
     PreventDefault #
     (if trim (signin_email (signin_formData st)) = []
         \<or> trim (signin_password (signin_formData st)) = []
      then []
      else [SetIsLoading True,
            AxiosPost ''http://0.0.0.0:8000/api/users/login''
              (signin_email (signin_formData st)) (signin_password (signin_formData st))]
           @ (case res of
                Resolved response \<Rightarrow> [ConsoleLogResponse response]
              | Rejected err \<Rightarrow> [ConsoleErrorEvent])
           @ [SetIsLoading False])"

fun signin_apply_effect :: "signin_state \<Rightarrow> effect \<Rightarrow> signin_state" where
  "signin_apply_effect st (SetIsLoading b) = st\<lparr>signin_isLoading := b\<rparr>"
| "signin_apply_effect st _ = st"

definition signin_run :: "signin_state \<Rightarrow> effect list \<Rightarrow> signin_state" where
  "signin_run st effs = foldl signin_apply_effect st effs"

section \<open>Notions used to state the properties\<close>

text \<open>
  The five criteria of the strength indicator as its description words them, and the
  number of criteria a password satisfies.
\<close>

definition criteria :: "(jsstring \<Rightarrow> bool) list" where
  "criteria =
     [\<lambda>pw. 8 \<le> length pw,
      \<lambda>pw. \<exists>c\<in>set pw. lowercase c,
      \<lambda>pw. \<exists>c\<in>set pw. uppercase c,
      \<lambda>pw. \<exists>c\<in>set pw. digit c,
      \<lambda>pw. \<exists>c\<in>set pw. \<not> lowercase c \<and> \<not> uppercase c \<and> \<not> digit c]"

definition satisfied_criteria :: "jsstring \<Rightarrow> nat" where
  "satisfied_criteria pw = length (filter (\<lambda>criterion. criterion pw) criteria)"


definition has_lower_upper_digit :: "jsstring \<Rightarrow> bool" where
  "has_lower_upper_digit s =
     ((\<exists>c\<in>set s. lowercase c) \<and> (\<exists>c\<in>set s. uppercase c) \<and> (\<exists>c\<in>set s. digit c))"

text \<open>
  The shape \<open>local@domain.tld\<close>: three non-empty parts without whitespace and without
  \<open>@\<close>, joined by an \<open>@\<close> and a full stop.
\<close>

definition email_shape :: "jsstring \<Rightarrow> bool" where
  "email_shape v =
     (\<exists>local domain tld.
        v = local @ [0x40] @ domain @ [0x2E] @ tld \<and>
        local \<noteq> [] \<and> domain \<noteq> [] \<and> tld \<noteq> [] \<and>
        list_all (\<lambda>c. \<not> whitespace c \<and> c \<noteq> 0x40) (local @ domain @ tld))"

text \<open>
  A field fails validation when validating its current value, with nothing carried
  over from earlier, reports an error for it.
\<close>

definition fails_validation :: "FormData \<Rightarrow> field \<Rightarrow> bool" where
  "fails_validation d f =
     (map_of (validateField [] d (field_name f) (get_field d f)) (field_name f) \<noteq> None)"

definition fresh_errors :: "FormData \<Rightarrow> field list" where
  \<comment> \<open>the fields of \<open>d\<close> that fail validation\<close>
  "fresh_errors d = filter (fails_validation d) Object_keys_FormData"

text \<open>
  The rules of the four fields as they are worded, apart from the code that checks
  them: what it means for the current value of a field to fail its rule. The username
  rule measures the value as it was entered.
\<close>

fun violates_rule :: "FormData \<Rightarrow> field \<Rightarrow> bool" where
  "violates_rule d Username = (length (username d) < 4)"
| "violates_rule d Email = (\<not> email_shape (email d))"
| "violates_rule d Password =
     (length (password d) < 8 \<or> \<not> has_lower_upper_digit (password d))"
| "violates_rule d ConfirmPassword = (confirmPassword d \<noteq> password d)"





text \<open>The inputs of the worked examples.\<close>

definition valid_input :: FormData where
  "valid_input =
     \<lparr>username = str ''joedoe'', email = str ''joe@x.com'', password = str ''Abcdef12'',
      confirmPassword = str ''Abcdef12''\<rparr>"

definition bad_email_input :: FormData where
  "bad_email_input =
     \<lparr>username = str ''joedoe'', email = str ''bad-email'', password = str ''Abcdef12'',
      confirmPassword = str ''Abcdef12''\<rparr>"

definition typing_in :: "FormData \<Rightarrow> event list" where
  \<comment> \<open>filling in the four inputs from top to bottom\<close>
  "typing_in d = map (\<lambda>f. Change f (get_field d f)) Object_keys_FormData"

section \<open>Facts about the regular expressions\<close>

lemma test_from_Cls: "test_from [Cls p] b s \<longleftrightarrow> (\<exists>c\<in>set s. p c)"
  by (induction s arbitrary: b) auto

lemmas class_defs =
  lowercase_def uppercase_def digit_def symbol_def whitespace_def line_terminator_def
  any_char_def not_space_at_def at_sign_def full_stop_def

lemma test_Cls: "test [Cls p] s \<longleftrightarrow> (\<exists>c\<in>set s. p c)"
  by (simp add: test_def test_from_Cls)

lemma accepts_Cls:
  "accepts (Cls p # rs) b s \<longleftrightarrow> (\<exists>c cs. s = c # cs \<and> p c \<and> accepts rs False cs)"
  by (cases s) auto

lemma run_of_class_Cons:
  "(\<exists>pre post. pre \<noteq> [] \<and> c # cs = pre @ post \<and> list_all p pre \<and> Q post)
   \<longleftrightarrow> p c \<and> (Q cs \<or> (\<exists>pre post. pre \<noteq> [] \<and> cs = pre @ post \<and> list_all p pre \<and> Q post))"
  (is "?L \<longleftrightarrow> ?R")
proof
  assume ?L
  then obtain pre post where h: "pre \<noteq> []" "c # cs = pre @ post" "list_all p pre" "Q post"
    by blast
  then obtain pre' where pre: "pre = c # pre'" "cs = pre' @ post"
    by (cases pre) auto
  show ?R
  proof (cases "pre' = []")
    case True
    with h pre show ?thesis by simp
  next
    case False
    with h pre show ?thesis by auto
  qed
next
  assume r: ?R
  then have pc: "p c" by simp
  from r consider "Q cs"
    | pre post where "pre \<noteq> []" "cs = pre @ post" "list_all p pre" "Q post"
    by blast
  then show ?L
  proof cases
    case 1
    with pc have "[c] \<noteq> [] \<and> c # cs = [c] @ cs \<and> list_all p [c] \<and> Q cs"
      by simp
    then show ?thesis by blast
  next
    case 2
    with pc have "c # pre \<noteq> [] \<and> c # cs = (c # pre) @ post \<and> list_all p (c # pre) \<and> Q post"
      by simp
    then show ?thesis by blast
  qed
qed

lemma accepts_Star:
  "accepts (Star p # rs) b s \<longleftrightarrow>
     accepts rs b s \<or>
     (\<exists>pre post. pre \<noteq> [] \<and> s = pre @ post \<and> list_all p pre \<and> accepts rs False post)"
proof (induction s arbitrary: b)
  case Nil
  show ?case by simp
next
  case (Cons c cs)
  show ?case
    unfolding run_of_class_Cons using Cons.IH [of False] by simp
qed

lemma accepts_Plus:
  "accepts (Plus p # rs) b s \<longleftrightarrow>
     (\<exists>pre post. pre \<noteq> [] \<and> s = pre @ post \<and> list_all p pre \<and> accepts rs False post)"
proof (cases s)
  case Nil
  then show ?thesis by simp
next
  case (Cons c cs)
  show ?thesis
    unfolding Cons run_of_class_Cons using accepts_Star [of p rs False cs] by simp
qed

lemma test_from_Bol_False: "\<not> test_from (Bol # rs) False s"
  by (induction s) auto

lemma test_Bol: "test (Bol # rs) s \<longleftrightarrow> accepts rs True s"
  by (cases s) (auto simp: test_def test_from_Bol_False)

lemma not_space_at_iff: "not_space_at c \<longleftrightarrow> \<not> whitespace c \<and> c \<noteq> 0x40"
  by (simp add: not_space_at_def)

lemma test_emailRegex: "test emailRegex v \<longleftrightarrow> email_shape v"
proof
  assume "test emailRegex v"
  then have "accepts [Plus not_space_at, Cls at_sign, Plus not_space_at, Cls full_stop,
      Plus not_space_at, Eol] True v"
    by (simp only: emailRegex_def test_Bol)
  then obtain l p1 where l: "l \<noteq> []" "v = l @ p1" "list_all not_space_at l"
    "accepts [Cls at_sign, Plus not_space_at, Cls full_stop, Plus not_space_at, Eol] False p1"
    unfolding accepts_Plus [of not_space_at "[Cls at_sign, Plus not_space_at, Cls full_stop, Plus not_space_at, Eol]"] by blast
  then obtain a p2 where a: "p1 = a # p2" "at_sign a"
    "accepts [Plus not_space_at, Cls full_stop, Plus not_space_at, Eol] False p2"
    unfolding accepts_Cls [of at_sign] by blast
  then obtain d p3 where d: "d \<noteq> []" "p2 = d @ p3" "list_all not_space_at d"
    "accepts [Cls full_stop, Plus not_space_at, Eol] False p3"
    unfolding accepts_Plus [of not_space_at "[Cls full_stop, Plus not_space_at, Eol]"] by blast
  then obtain f p4 where f: "p3 = f # p4" "full_stop f" "accepts [Plus not_space_at, Eol] False p4"
    unfolding accepts_Cls [of full_stop] by blast
  then obtain t p5 where t: "t \<noteq> []" "p4 = t @ p5" "list_all not_space_at t"
    "accepts [Eol] False p5"
    unfolding accepts_Plus [of not_space_at "[Eol]"] by blast
  from t have p5: "p5 = []" by simp
  have "v = l @ [0x40] @ d @ [0x2E] @ t"
    using l a d f t p5 by (simp add: at_sign_def full_stop_def)
  moreover have "list_all (\<lambda>c. \<not> whitespace c \<and> c \<noteq> 0x40) (l @ d @ t)"
    using l(3) d(3) t(3) by (auto simp: list_all_iff not_space_at_iff)
  ultimately show "email_shape v"
    unfolding email_shape_def using l(1) d(1) t(1) by blast
next
  assume "email_shape v"
  then obtain l d t where v: "v = l @ [0x40] @ d @ [0x2E] @ t" and ne: "l \<noteq> []" "d \<noteq> []" "t \<noteq> []"
    and cls: "list_all (\<lambda>c. \<not> whitespace c \<and> c \<noteq> 0x40) (l @ d @ t)"
    unfolding email_shape_def by blast
  from cls have c: "list_all not_space_at l" "list_all not_space_at d" "list_all not_space_at t"
    by (auto simp: list_all_iff not_space_at_iff)
  have e5: "accepts [Plus not_space_at, Eol] False t"
    unfolding accepts_Plus [of not_space_at "[Eol]"] using ne(3) c(3)
    by (intro exI [of _ t] exI [of _ "[]"]) simp
  have e4: "accepts [Cls full_stop, Plus not_space_at, Eol] False (0x2E # t)"
    unfolding accepts_Cls [of full_stop] using e5 by (simp add: full_stop_def)
  have e3: "accepts [Plus not_space_at, Cls full_stop, Plus not_space_at, Eol] False (d @ 0x2E # t)"
    unfolding accepts_Plus [of not_space_at "[Cls full_stop, Plus not_space_at, Eol]"]
    using ne(2) c(2) e4 by blast
  have e2: "accepts [Cls at_sign, Plus not_space_at, Cls full_stop, Plus not_space_at, Eol] False
      (0x40 # d @ 0x2E # t)"
    unfolding accepts_Cls [of at_sign] using e3 by (simp add: at_sign_def)
  have e1: "accepts [Plus not_space_at, Cls at_sign, Plus not_space_at, Cls full_stop,
      Plus not_space_at, Eol] True (l @ 0x40 # d @ 0x2E # t)"
    unfolding accepts_Plus [of not_space_at "[Cls at_sign, Plus not_space_at, Cls full_stop, Plus not_space_at, Eol]"]
    using ne(1) c(1) e2 by blast
  show "test emailRegex v"
    unfolding emailRegex_def test_Bol v using e1 by simp
qed

subsection \<open>The password pattern\<close>






lemma has_lower_upper_digit_Nil [simp]: "\<not> has_lower_upper_digit []"
  by (simp add: has_lower_upper_digit_def)




section \<open>The password strength indicator\<close>

lemma strength_sum:
  "getPasswordStrength pw =
     of_bool (8 \<le> length pw) + of_bool (test [Cls lowercase] pw)
     + of_bool (test [Cls uppercase] pw) + of_bool (test [Cls digit] pw)
     + of_bool (test [Cls symbol] pw)"
  by (simp add: getPasswordStrength_def)

lemma criteria_sum:
  "satisfied_criteria pw =
     of_bool (8 \<le> length pw) + of_bool (\<exists>c\<in>set pw. lowercase c)
     + of_bool (\<exists>c\<in>set pw. uppercase c) + of_bool (\<exists>c\<in>set pw. digit c)
     + of_bool (\<exists>c\<in>set pw. \<not> lowercase c \<and> \<not> uppercase c \<and> \<not> digit c)"
  unfolding satisfied_criteria_def criteria_def by (simp del: bex_simps)

lemma symbol_iff: "symbol c \<longleftrightarrow> \<not> lowercase c \<and> \<not> uppercase c \<and> \<not> digit c"
  by (simp add: symbol_def)

lemma strength_eq_criteria: "getPasswordStrength pw = satisfied_criteria pw"
  unfolding strength_sum criteria_sum test_Cls symbol_iff ..

text \<open>
  C5, as the code has it: the strength of \<open>abcdefgh\<close> is 2 (length and lowercase), of
  \<open>Abcdefg1\<close> it is 4 (length, lowercase, uppercase, digit), of \<open>Abcdef1!\<close> it is 5.
\<close>

theorem getPasswordStrength_examples:
  "getPasswordStrength (str ''abcdefgh'') = 2 \<and>
   getPasswordStrength (str ''Abcdefg1'') = 4 \<and>
   getPasswordStrength (str ''Abcdef1!'') = 5"
  by (simp add: getPasswordStrength_def str_def test_def class_defs)

text \<open>
  C5 as stated (strengths 1, 3 and 5 for the three passwords) does not hold: both
  \<open>abcdefgh\<close> and \<open>Abcdefg1\<close> have eight characters, which is a point of its own.
\<close>

theorem getPasswordStrength_examples_counterexample:
  "\<not> (getPasswordStrength (str ''abcdefgh'') = 1 \<and>
      getPasswordStrength (str ''Abcdefg1'') = 3 \<and>
      getPasswordStrength (str ''Abcdef1!'') = 5)"
  by (simp add: getPasswordStrength_def str_def test_def class_defs)

text \<open>
  C6: for every password the strength is the number of the five criteria it satisfies
  (at least eight characters, a lowercase letter, an uppercase letter, a digit, a
  character that is none of these), hence a number from 0 to 5; \<open>AAAAAAAA\<close> has
  strength 2 and \<open>aA1!aaaa\<close> has strength 5. The strength is a function of the
  password alone.
\<close>

theorem getPasswordStrength_counts_criteria:
  "getPasswordStrength pw = satisfied_criteria pw \<and>
   getPasswordStrength pw \<le> 5 \<and>
   getPasswordStrength (str ''AAAAAAAA'') = 2 \<and>
   getPasswordStrength (str ''aA1!aaaa'') = 5"
proof -
  have "getPasswordStrength pw \<le> 5"
    by (simp add: getPasswordStrength_def)
  moreover have "getPasswordStrength (str ''AAAAAAAA'') = 2"
    by (simp add: getPasswordStrength_def str_def test_def class_defs)
  moreover have "getPasswordStrength (str ''aA1!aaaa'') = 5"
    by (simp add: getPasswordStrength_def str_def test_def class_defs)
  ultimately show ?thesis
    using strength_eq_criteria by simp
qed

theorem getPasswordStrength_counts_criteria_witness:
  "getPasswordStrength (str ''Ab1'') = satisfied_criteria (str ''Ab1'') \<and>
   satisfied_criteria (str ''Ab1'') = 3"
proof -
  have "satisfied_criteria (str ''Ab1'') = 3"
    by (simp add: satisfied_criteria_def criteria_def str_def class_defs)
  then show ?thesis
    using getPasswordStrength_counts_criteria [of "str ''Ab1''"] by simp
qed

section \<open>Validation of the sign-up fields\<close>

lemma validateField_username_eq:
  "validateField errs d ''username'' v =
     (if v = [] \<or> length v < 4
      then AList.update ''username'' ''Username must be at least 4 characters'' errs
      else AList.delete ''username'' errs)"
  by (simp add: validateField_def)

lemma validateField_email_eq:
  "validateField errs d ''email'' v =
     (if v = [] \<or> \<not> test emailRegex v
      then AList.update ''email'' ''Please enter a valid email address'' errs
      else AList.delete ''email'' errs)"
  by (simp add: validateField_def)

lemma validateField_password_eq:
  "validateField errs d ''password'' v =
     (if v = [] \<or> length v < 8
      then AList.update ''password'' ''Password must be at least 8 characters'' errs
      else if \<not> test passwordRegex v
      then AList.update ''password'' ''Password must contain uppercase, lowercase, and number'' errs
      else AList.delete ''password'' errs)"
  by (simp add: validateField_def)

lemma validateField_confirmPassword_eq:
  "validateField errs d ''confirmPassword'' v =
     (if v \<noteq> password d
      then AList.update ''confirmPassword'' ''Passwords do not match'' errs
      else AList.delete ''confirmPassword'' errs)"
  by (simp add: validateField_def)

lemma validateField_other_name:
  "name \<noteq> ''username'' \<Longrightarrow> name \<noteq> ''email'' \<Longrightarrow> name \<noteq> ''password'' \<Longrightarrow>
   name \<noteq> ''confirmPassword'' \<Longrightarrow> validateField errs d name v = errs"
  by (simp add: validateField_def)

lemma map_of_validateField_other:
  assumes "k \<noteq> name"
  shows "map_of (validateField errs d name v) k = map_of errs k"
proof -
  consider "name = ''username''" | "name = ''email''" | "name = ''password''"
    | "name = ''confirmPassword''"
    | "name \<noteq> ''username''" "name \<noteq> ''email''" "name \<noteq> ''password''"
      "name \<noteq> ''confirmPassword''"
    by blast
  then show ?thesis
  proof cases
    case 1
    with assms show ?thesis by (simp add: validateField_username_eq update_conv' delete_conv')
  next
    case 2
    with assms show ?thesis by (simp add: validateField_email_eq update_conv' delete_conv')
  next
    case 3
    with assms show ?thesis by (simp add: validateField_password_eq update_conv' delete_conv')
  next
    case 4
    with assms show ?thesis
      by (simp add: validateField_confirmPassword_eq update_conv' delete_conv')
  next
    case 5
    then show ?thesis by (simp add: validateField_other_name)
  qed
qed

text \<open>
  C4, as the code has it: validating the username puts the message
  \<open>Username must be at least 4 characters\<close> under the key \<open>username\<close> exactly when the
  value itself, untrimmed, is shorter than four characters, and removes the key
  otherwise; so every username of length at least 4 has no error.
\<close>

theorem validateField_username:
  "map_of (validateField errs d ''username'' v) ''username'' =
     (if length v < 4 then Some ''Username must be at least 4 characters'' else None)"
  by (auto simp: validateField_username_eq update_conv' delete_conv')

text \<open>
  C4 as stated measures the trimmed value; the code does not trim. Four spaces have a
  trimmed length of 0 and yet are accepted as a username.
\<close>

theorem validateField_username_counterexample:
  "\<not> (map_of (validateField [] initial_FormData ''username'' (str ''    '')) ''username''
        = Some ''Username must be at least 4 characters''
      \<longleftrightarrow> length (trim (str ''    '')) < 4)"
  by (simp add: trim_def str_def whitespace_def validateField_def)

lemma email_shape_nonempty: "email_shape v \<Longrightarrow> v \<noteq> []"
  by (auto simp: email_shape_def)

lemmas eval_defs =
  validateField_def str_def test_def emailRegex_def passwordRegex_def class_defs



text \<open>
  C8 at a password whose letters and digit stand on two lines, eight lowercase
  letters, a LINE SEPARATOR (U+2028) and \<open>A1\<close>: it has eleven characters and contains
  a lowercase letter, an uppercase letter and a digit, the strength indicator counts
  all five criteria for it, and validation still reports
  \<open>Password must contain uppercase, lowercase, and number\<close>.
\<close>

theorem validateField_password_line_separator:
  "length (str ''abcdefgh'' @ [0x2028] @ str ''A1'') = 11 \<and>
   has_lower_upper_digit (str ''abcdefgh'' @ [0x2028] @ str ''A1'') \<and>
   getPasswordStrength (str ''abcdefgh'' @ [0x2028] @ str ''A1'') = 5 \<and>
   map_of (validateField [] initial_FormData ''password''
            (str ''abcdefgh'' @ [0x2028] @ str ''A1'')) ''password'' =
     Some ''Password must contain uppercase, lowercase, and number''"
  by code_simp

text \<open>
  C9: validating the email gives \<open>Please enter a valid email address\<close> unless the
  value has the shape \<open>local@domain.tld\<close>, three non-empty parts free of whitespace
  and of \<open>@\<close>. For the input with username \<open>joedoe\<close>, email \<open>bad-email\<close> and both
  passwords \<open>Abcdef12\<close>, validating each field reports an error for the email only,
  and so does the form after the four values were typed in, also after a submit.
\<close>

theorem validateField_email:
  "map_of (validateField errs d ''email'' v) ''email'' =
     (if email_shape v then None else Some ''Please enter a valid email address'') \<and>
   fresh_errors bad_email_input = [Email] \<and>
   errors (ui (steps initial_page (typing_in bad_email_input))) =
     [(''email'', ''Please enter a valid email address'')] \<and>
   errors (ui (steps initial_page (typing_in bad_email_input @ [Submit]))) =
     [(''email'', ''Please enter a valid email address'')]"
proof -
  have "map_of (validateField errs d ''email'' v) ''email'' =
     (if email_shape v then None else Some ''Please enter a valid email address'')"
    using email_shape_nonempty [of v]
    by (auto simp: validateField_def update_conv' delete_conv' test_emailRegex)
  moreover have "fresh_errors bad_email_input = [Email]"
    by code_simp
  moreover have "errors (ui (steps initial_page (typing_in bad_email_input))) =
     [(''email'', ''Please enter a valid email address'')]"
    by code_simp
  moreover have "errors (ui (steps initial_page (typing_in bad_email_input @ [Submit]))) =
     [(''email'', ''Please enter a valid email address'')]"
    by code_simp
  ultimately show ?thesis by simp
qed

theorem validateField_email_witness:
  "map_of (validateField [] initial_FormData ''email'' (str ''joe@x.com'')) ''email'' = None \<and>
   email_shape (str ''joe@x.com'')"
proof -
  have "map_of (validateField [] initial_FormData ''email'' (str ''joe@x.com'')) ''email'' = None"
    by (simp add: eval_defs)
  then show ?thesis
    using validateField_email [of "[]" initial_FormData "str ''joe@x.com''"]
    by (simp split: if_splits)
qed

section \<open>The sign-up handlers\<close>

lemma field_name_inject [simp]: "field_name f = field_name g \<longleftrightarrow> f = g"
  by (cases f; cases g) simp_all



lemma fails_validation_ConfirmPassword:
  "fails_validation d ConfirmPassword \<longleftrightarrow> confirmPassword d \<noteq> password d"
  by (auto simp: fails_validation_def validateField_def)

lemma run_Change:
  "run st (handleInputChange st f v) =
     st\<lparr>formData := set_field f v (formData st),
        errors := validateField (errors st) (formData st) (field_name f) v\<rparr>"
  by (simp add: run_def handleInputChange_def)

lemma before_await_handleSubmit:
  "before_await (handleSubmit st) =
     PreventDefault #
     map (\<lambda>key. SetErrors (validateField (errors st) (formData st) (field_name key)
                             (get_field (formData st) key))) Object_keys_FormData @
     (if errors st = [] then [SetIsLoading True] else [])"
  by (simp add: handleSubmit_def before_await_def Object_keys_FormData_def)

lemma after_await_handleSubmit:
  "after_await (handleSubmit st) =
     (if errors st = [] then [AwaitTimeout 2000, SetIsLoading False, ConsoleLogFormData (formData st)] else [])"
  by (simp add: handleSubmit_def after_await_def Object_keys_FormData_def)

lemma run_before_await_handleSubmit:
  "run st (before_await (handleSubmit st)) =
     st\<lparr>errors := validateField (errors st) (formData st) ''confirmPassword'' (confirmPassword (formData st)),
        isLoading := (if errors st = [] then True else isLoading st)\<rparr>"
  by (simp add: before_await_handleSubmit run_def Object_keys_FormData_def)











lemma no_network_call_handleSubmit: "filter is_network_call (handleSubmit st) = []"
  by (simp add: handleSubmit_def Object_keys_FormData_def)

lemma run_rest_of_submit:
  "run st [AwaitTimeout ms, SetIsLoading b, ConsoleLogFormData d] = st\<lparr>isLoading := b\<rparr>"
  by (simp add: run_def)

text \<open>
  C2, as the code has it: a change of the password recomputes the entry of the
  password only and leaves the entry of \<open>confirmPassword\<close> as it was. That entry is
  recomputed when \<open>confirmPassword\<close> itself changes and on submit, each time against
  the password the form holds at that moment: it is \<open>Passwords do not match\<close> exactly
  when the two values differ.
\<close>

theorem password_change_keeps_confirmPassword_entry:
  "map_of (errors (ui (step pg (Change Password v)))) ''confirmPassword'' =
     map_of (errors (ui pg)) ''confirmPassword'' \<and>
   map_of (errors (ui (step pg (Change ConfirmPassword v)))) ''confirmPassword'' =
     (if v = password (formData (ui pg)) then None else Some ''Passwords do not match'') \<and>
   map_of (errors (ui (step pg Submit))) ''confirmPassword'' =
     (if confirmPassword (formData (ui pg)) = password (formData (ui pg)) then None
      else Some ''Passwords do not match'')"
  by (simp add: run_Change run_before_await_handleSubmit Let_def map_of_validateField_other
      validateField_confirmPassword_eq update_conv' delete_conv')

text \<open>
  C2 as stated asks for the entry of \<open>confirmPassword\<close> to follow a change of the
  password. After both fields were given \<open>Abcdef12\<close>, changing the password to
  \<open>Abcdef123\<close> leaves the two values different and no error for \<open>confirmPassword\<close>.
\<close>

theorem password_change_counterexample:
  "\<not> (map_of (errors (ui (steps initial_page
            [Change Password (str ''Abcdef12''), Change ConfirmPassword (str ''Abcdef12'')])))
          ''confirmPassword'' = None \<and>
        confirmPassword (formData (ui (steps initial_page
            [Change Password (str ''Abcdef12''), Change ConfirmPassword (str ''Abcdef12''),
             Change Password (str ''Abcdef123'')])))
          \<noteq> password (formData (ui (steps initial_page
            [Change Password (str ''Abcdef12''), Change ConfirmPassword (str ''Abcdef12''),
             Change Password (str ''Abcdef123'')]))) \<longrightarrow>
        map_of (errors (ui (steps initial_page
            [Change Password (str ''Abcdef12''), Change ConfirmPassword (str ''Abcdef12''),
             Change Password (str ''Abcdef123'')])))
          ''confirmPassword'' = Some ''Passwords do not match'')"
  by code_simp





lemma violates_rule_ConfirmPassword:
  "fails_validation d ConfirmPassword \<longleftrightarrow> violates_rule d ConfirmPassword"
  by (simp add: fails_validation_ConfirmPassword)




text \<open>
  C1 on the freshly mounted form: username, email and password all fail validation,
  yet the handler tests the error object of the render it was created in, which is
  empty, and goes on to set \<open>isLoading\<close>. Each of the four calls of \<open>validateField\<close>
  starts from that same object, so only the result of the last one, for
  \<open>confirmPassword\<close>, is kept: no error is shown either.
\<close>

theorem handleSubmit_pristine_form:
  "fresh_errors (formData initial_state) = [Username, Email, Password] \<and>
   handleSubmit initial_state =
     [PreventDefault,
      SetErrors [(''username'', ''Username must be at least 4 characters'')],
      SetErrors [(''email'', ''Please enter a valid email address'')],
      SetErrors [(''password'', ''Password must be at least 8 characters'')],
      SetErrors [],
      SetIsLoading True, AwaitTimeout 2000, SetIsLoading False,
      ConsoleLogFormData initial_FormData] \<and>
   isLoading (ui (step initial_page Submit)) \<and>
   errors (ui (step initial_page Submit)) = []"
  by code_simp

text \<open>
  C3, as the code has it: the submit handler never calls the network. When the error
  object of the page is empty and no earlier submit is suspended, a submit sets
  \<open>isLoading\<close> and suspends on a timer of 2000 ms; when the timer fires \<open>isLoading\<close> is
  cleared and the form data, unchanged, are logged. There is no state for success or
  failure and nothing is kept of a failure.
\<close>

theorem handleSubmit_simulates_submission:
  assumes "errors (ui pg) = []" and "pending pg = []"
  shows "filter is_network_call (handleSubmit (ui pg)) = [] \<and>
     isLoading (ui (step pg Submit)) \<and>
     pending (step pg Submit) =
       [[AwaitTimeout 2000, SetIsLoading False, ConsoleLogFormData (formData (ui pg))]] \<and>
     \<not> isLoading (ui (steps pg [Submit, TimerFired])) \<and>
     pending (steps pg [Submit, TimerFired]) = [] \<and>
     formData (ui (steps pg [Submit, TimerFired])) = formData (ui pg)"
  using assms
  by (simp add: no_network_call_handleSubmit steps_def Let_def run_before_await_handleSubmit
      after_await_handleSubmit run_rest_of_submit)

theorem handleSubmit_simulates_submission_witness:
  "errors (ui (steps initial_page (typing_in valid_input))) = [] \<and>
   pending (steps initial_page (typing_in valid_input)) = [] \<and>
   isLoading (ui (step (steps initial_page (typing_in valid_input)) Submit)) \<and>
   \<not> isLoading (ui (steps (steps initial_page (typing_in valid_input)) [Submit, TimerFired]))"
proof -
  have e: "errors (ui (steps initial_page (typing_in valid_input))) = []"
    by code_simp
  have p: "pending (steps initial_page (typing_in valid_input)) = []"
    by code_simp
  show ?thesis
    using e p handleSubmit_simulates_submission [OF e p] by simp
qed

text \<open>
  C3 as stated has the authentication collaborator invoked exactly once for a fully
  valid form. For the valid input typed in, the trace of the handler holds no network
  call.
\<close>

theorem handleSubmit_collaborator_counterexample:
  "\<not> (fresh_errors valid_input = [] \<longrightarrow>
       length (filter is_network_call
         (handleSubmit (ui (steps initial_page (typing_in valid_input))))) = 1)"
  by code_simp

section \<open>The sign-in handler\<close>

text \<open>
  C10: when the trimmed email or the trimmed password of the sign-in form is empty,
  the submit handler only prevents the default action and returns: its trace holds no
  network call and no \<open>setIsLoading\<close>, and the state of the form is unchanged.
\<close>

theorem signin_handleSubmit_blank:
  assumes "trim (signin_email (signin_formData st)) = []
           \<or> trim (signin_password (signin_formData st)) = []"
  shows "signin_handleSubmit st res = [PreventDefault] \<and>
     filter is_network_call (signin_handleSubmit st res) = [] \<and>
     (\<forall>b. SetIsLoading b \<notin> set (signin_handleSubmit st res)) \<and>
     signin_run st (signin_handleSubmit st res) = st"
  using assms by (auto simp: signin_handleSubmit_def signin_run_def)

theorem signin_handleSubmit_blank_witness:
  "trim (signin_email \<lparr>signin_email = str ''  '', signin_password = str ''secret''\<rparr>) = [] \<and>
   signin_handleSubmit
     \<lparr>signin_formData = \<lparr>signin_email = str ''  '', signin_password = str ''secret''\<rparr>,
      signin_showPassword = False, signin_isLoading = False\<rparr> (Rejected []) = [PreventDefault]"
proof -
  have t: "trim (signin_email \<lparr>signin_email = str ''  '', signin_password = str ''secret''\<rparr>) = []"
    by code_simp
  show ?thesis
    using t signin_handleSubmit_blank [of
        "\<lparr>signin_formData = \<lparr>signin_email = str ''  '', signin_password = str ''secret''\<rparr>,
          signin_showPassword = False, signin_isLoading = False\<rparr>" "Rejected []"]
    by simp
qed

end
